theory Spec2Isabelle
  imports Complex_Main "HOL-Library.AList"
begin

section \<open>ToolManager: a shallow embedding\<close>

text \<open>
  The theory embeds the class \<open>ToolManager\<close> (the tool catalog manager built on a
  ChromaDB collection and an OpenAI-compatible completion client). Every \<open>async\<close>
  method becomes a function that takes the state and returns the outcome with the new state.
  A thrown error (a rejected promise) is the left injection of a sum. The methods call each
  other recursively, so each takes the number of nested calls still available as its first
  argument: \<open>None\<close> means that the call has not returned within that depth. A call that
  is \<open>None\<close> at every depth never returns: the engine ends it with the \<open>RangeError\<close>
  of an exceeded call stack, thrown to the awaiting caller like any other error. Where no
  \<open>try\<close> block stands around the call, \<open>None\<close> passes on to the caller. The two
  \<open>try\<close> blocks around a call of these methods, in \<open>ensureToolCreationTool\<close> and in
  \<open>executeToolCreation\<close>, catch the \<open>RangeError\<close> as they catch every error.
\<close>

subsection \<open>JavaScript values and strings\<close>

text \<open>
  A tool definition is a plain JavaScript object: the hardcoded constant, or whatever
  \<open>JSON.parse\<close> produced from the completion. Objects are association lists in property
  order. Numbers carry their value only; the program reads them for truthiness alone.
\<close>

datatype jsval = Undefined | Null | Bool bool | Num rat | Str string
  | Arr "jsval list" | Obj "(string \<times> jsval) list"

type_synonym tool = "(string \<times> jsval) list"

datatype error = Error (message: string)

text \<open>\<open>!v\<close> is \<open>\<not> truthy v\<close>.\<close>

fun truthy :: "jsval \<Rightarrow> bool" where
  "truthy Undefined = False"
| "truthy Null = False"
| "truthy (Bool b) = b"
| "truthy (Num r) = (r \<noteq> 0)"
| "truthy (Str s) = (s \<noteq> [])"
| "truthy (Arr xs) = True"
| "truthy (Obj kvs) = True"

text \<open>
  \<open>o.k\<close> on an object, for the property names the program reads (\<open>id\<close>, \<open>type\<close>,
  \<open>name\<close>, \<open>description\<close>, \<open>parameters\<close>, \<open>properties\<close>): none of them is inherited
  from a prototype, so a missing key reads as \<open>undefined\<close>.
\<close>

definition get_prop :: "tool \<Rightarrow> string \<Rightarrow> jsval" where
  "get_prop kvs k = (case map_of kvs k of Some v \<Rightarrow> v | None \<Rightarrow> Undefined)"

text \<open>\<open>o.k = v\<close>: an existing key keeps its place, a new one goes last.\<close>

definition set_prop :: "tool \<Rightarrow> string \<Rightarrow> jsval \<Rightarrow> tool" where
  "set_prop kvs k v = AList.update k v kvs"

text \<open>
  \<open>v.k\<close> on any value, for the same property names: primitives and arrays have no such
  property, \<open>null\<close> and \<open>undefined\<close> throw a \<open>TypeError\<close> (the message is the engine's).
\<close>

fun read_prop :: "jsval \<Rightarrow> string \<Rightarrow> error + jsval" where
  "read_prop (Obj kvs) k = Inr (get_prop kvs k)"
| "read_prop Null k = Inl (Error (''Cannot read properties of null (reading '' @ k @ '')''))"
| "read_prop Undefined k =
     Inl (Error (''Cannot read properties of undefined (reading '' @ k @ '')''))"
| "read_prop v k = Inr Undefined"

text \<open>\<open>v.k\<close> on a value that is neither \<open>null\<close> nor \<open>undefined\<close>.\<close>

fun prop_of :: "jsval \<Rightarrow> string \<Rightarrow> jsval" where
  "prop_of (Obj kvs) k = get_prop kvs k"
| "prop_of v k = Undefined"

text \<open>\<open>typeof v === 'object'\<close>.\<close>

fun typeof_object :: "jsval \<Rightarrow> bool" where
  "typeof_object Null = True"
| "typeof_object (Arr xs) = True"
| "typeof_object (Obj kvs) = True"
| "typeof_object v = False"

text \<open>
  Strings are lists of code units below 256. The white space of \<open>trim\<close> and of the
  regular expression class \<open>\s\<close> in that range: tab, line feed, vertical tab, form feed,
  carriage return, space and no-break space.
\<close>

definition js_space :: "char \<Rightarrow> bool" where
  "js_space c \<longleftrightarrow>
     c \<in> set [CHR 0x09, CHR 0x0A, CHR 0x0B, CHR 0x0C, CHR 0x0D, CHR '' '', CHR 0xA0]"

definition js_trim :: "string \<Rightarrow> string" where
  "js_trim s = rev (dropWhile js_space (rev (dropWhile js_space s)))"

definition startsWith :: "string \<Rightarrow> string \<Rightarrow> bool" where
  "startsWith s p \<longleftrightarrow> take (length p) s = p"

definition endsWith :: "string \<Rightarrow> string \<Rightarrow> bool" where
  "endsWith s p \<longleftrightarrow> startsWith (rev s) (rev p)"

text \<open>\<open>s.includes(p)\<close>: \<open>p\<close> occurs in \<open>s\<close>.\<close>

fun str_includes :: "string \<Rightarrow> string \<Rightarrow> bool" where
  "str_includes [] p = (p = [])"
| "str_includes (c # cs) p = (startsWith (c # cs) p \<or> str_includes cs p)"

subsection \<open>The regular expression of the extraction step\<close>

text \<open>
  \<open>rawResponse.match(/```json\s*([\s\S]*?)\s*```/)\<close>, by the backtracking semantics of
  the pattern. \<open>lazy_capture\<close> is \<open>([\s\S]*?)\s*```\<close> at a position: the lazy group
  grows one character at a time until white space and the closing fence follow.
  \<open>after_open\<close> is the part after \<open>```json\<close>: the greedy \<open>\s*\<close> takes all the white
  space first and gives it back one character at a time. \<open>fence_match\<close> tries the start
  positions from the left and yields the group of the first match.
\<close>

definition fence :: string where
  "fence = ''```''"

definition fence_open :: string where
  "fence_open = ''```json''"

fun lazy_capture :: "string \<Rightarrow> string option" where
  "lazy_capture [] = None"
| "lazy_capture (c # cs) =
     (if startsWith (dropWhile js_space (c # cs)) fence then Some []
      else map_option ((#) c) (lazy_capture cs))"

fun first_some :: "'a option list \<Rightarrow> 'a option" where
  "first_some [] = None"
| "first_some (None # xs) = first_some xs"
| "first_some (Some x # xs) = Some x"

definition after_open :: "string \<Rightarrow> string option" where
  "after_open s =
     first_some (map (\<lambda>k. lazy_capture (drop k s))
                     (rev [0 ..< Suc (length (takeWhile js_space s))]))"

fun fence_match :: "string \<Rightarrow> string option" where
  "fence_match [] = None"
| "fence_match (c # cs) =
     (case (if startsWith (c # cs) fence_open
            then after_open (drop (length fence_open) (c # cs)) else None) of
        Some g \<Rightarrow> Some g
      | None \<Rightarrow> fence_match cs)"

text \<open>
  The extraction step of \<open>executeToolCreation\<close>: the group of the match if there is a
  match and the group is not empty, else the raw response if it starts with an opening and
  ends with a closing brace, else the format error.
\<close>

definition format_error :: "string \<Rightarrow> error" where
  "format_error rawResponse =
     Error (''LLM response did not contain the expected JSON format. Response: ''
            @ rawResponse)"

definition extractJson :: "string \<Rightarrow> error + string" where
  "extractJson rawResponse =
     (case fence_match rawResponse of
        Some g \<Rightarrow>
          if g \<noteq> [] then Inr g
          else if startsWith rawResponse ''{'' \<and> endsWith rawResponse ''}''
          then Inr rawResponse
          else Inl (format_error rawResponse)
      | None \<Rightarrow>
          if startsWith rawResponse ''{'' \<and> endsWith rawResponse ''}''
          then Inr rawResponse
          else Inl (format_error rawResponse))"

subsection \<open>Configuration, state and the external collaborators\<close>

text \<open>
  What the module takes from outside: whether the module-level \<open>embedder\<close> is set
  (\<open>OPENAI_API_KEY\<close> present), the built-ins \<open>JSON.parse\<close> (the message of the
  \<open>SyntaxError\<close> to the left), \<open>JSON.stringify\<close> and the string conversion of template
  literals, the identifiers that successive calls of \<open>uuidv4\<close> return, and the order in
  which the vector store ranks its entries for a query text.
\<close>

record env =
  embedder :: bool
  json_parse :: "string \<Rightarrow> string + jsval"
  json_stringify :: "jsval \<Rightarrow> string"
  to_string :: "jsval \<Rightarrow> string"
  uuidv4 :: "nat \<Rightarrow> string"
  nearest :: "string \<Rightarrow> (jsval \<times> tool \<times> string) list \<Rightarrow> (jsval \<times> tool \<times> string) list"

text \<open>
  The state: the fields \<open>this.collection\<close> (the cached handle) and \<open>this.llmClient\<close>
  (the completion call as a function of the task description and the suggested name, which
  determine the prompt; it throws, or yields the content of the first choice if there is
  one), the catalog held by the vector store (identifier, metadata, document), the outcomes
  of the coming calls to the store (\<open>Some e\<close>: the call throws \<open>e\<close>; no entry: the call
  succeeds), and the number of identifiers drawn so far.
\<close>

record state =
  collection :: "unit option"
  llmClient :: "(string \<Rightarrow> string option \<Rightarrow> error + string option) option"
  catalog :: "(jsval \<times> tool \<times> string) list"
  faults :: "error option list"
  uuid_calls :: nat

definition take_fault :: "state \<Rightarrow> error option \<times> state" where
  "take_fault s =
     (case faults s of [] \<Rightarrow> (None, s) | f # fs \<Rightarrow> (f, s\<lparr>faults := fs\<rparr>))"

text \<open>
  The vector store, by the interface the class uses: \<open>getOrCreateCollection\<close> of the
  client; \<open>get\<close> by one identifier (the metadata found, none or one); \<open>upsert\<close> of one
  entry, the last write winning; \<open>query\<close> for the metadata of the nearest entries.
\<close>

definition chroma_getOrCreateCollection :: "state \<Rightarrow> (error + unit) \<times> state" where
  "chroma_getOrCreateCollection s =
     (case take_fault s of
        (Some e, s1) \<Rightarrow> (Inl e, s1)
      | (None, s1) \<Rightarrow> (Inr (), s1))"

definition collection_get :: "jsval \<Rightarrow> state \<Rightarrow> (error + tool list) \<times> state" where
  "collection_get k s =
     (case take_fault s of
        (Some e, s1) \<Rightarrow> (Inl e, s1)
      | (None, s1) \<Rightarrow>
          (Inr (case map_of (catalog s1) k of None \<Rightarrow> [] | Some (m, doc) \<Rightarrow> [m]), s1))"

definition collection_upsert ::
  "jsval \<Rightarrow> tool \<Rightarrow> string \<Rightarrow> state \<Rightarrow> (error + unit) \<times> state" where
  "collection_upsert k m doc s =
     (case take_fault s of
        (Some e, s1) \<Rightarrow> (Inl e, s1)
      | (None, s1) \<Rightarrow> (Inr (), s1\<lparr>catalog := AList.update k (m, doc) (catalog s1)\<rparr>))"

definition collection_query ::
  "env \<Rightarrow> string \<Rightarrow> int \<Rightarrow> state \<Rightarrow> (error + tool list) \<times> state" where
  "collection_query env text nResults s =
     (case take_fault s of
        (Some e, s1) \<Rightarrow> (Inl e, s1)
      | (None, s1) \<Rightarrow>
          (Inr (map (\<lambda>(k, m, doc). m) (take (nat nResults) (nearest env text (catalog s1)))),
           s1))"

subsection \<open>The core tool definition\<close>

definition TOOL_CREATION_TOOL_ID :: string where
  "TOOL_CREATION_TOOL_ID = ''core_create_tool_001''"

definition TOOL_CREATION_TOOL_DEF :: tool where
  \<open>TOOL_CREATION_TOOL_DEF =
     [(''id'', Str TOOL_CREATION_TOOL_ID),
      (''name'', Str ''create_new_tool''),
      (''description'', Str (''Creates a definition for a new tool based on a natural language description of the desired functionality. ''
          @ ''It generates the tool name, description, and JSON parameter schema.'')),
      (''parameters'', Obj
         [(''type'', Str ''object''),
          (''properties'', Obj
             [(''task_description'', Obj
                 [(''type'', Str ''string''),
                  (''description'', Str (''A detailed natural language description of what the new tool should do, ''
                      @ ''its purpose, and any specific inputs it should take.''))]),
              (''suggested_name'', Obj
                 [(''type'', Str ''string''),
                  (''description'', Str (''Optional: A suggested base name for the tool (e.g., "get_weather"). ''
                      @ ''The LLM might refine it.''))])]),
          (''required'', Arr [Str ''task_description''])]),
      (''type'', Str ''core'')]\<close>

subsection \<open>Connection, core tool and add-or-update\<close>

text \<open>
  The first part of \<open>_getOrCreateCollection\<close>: with no cached handle, throw if there is
  no embedder, else ask the client for the collection and cache it; any error of the client
  is replaced by the connection error.
\<close>

definition connect :: "env \<Rightarrow> state \<Rightarrow> (error + unit) \<times> state" where
  "connect env s =
     (if collection s = None then
        if \<not> embedder env then
          (Inl (Error (''Cannot create collection without an embedding function. ''
                       @ ''Ensure OPENAI_API_KEY is set.'')), s)
        else
          (case chroma_getOrCreateCollection s of
             (Inr h, s1) \<Rightarrow> (Inr (), s1\<lparr>collection := Some h\<rparr>)
           | (Inl e, s1) \<Rightarrow>
               (Inl (Error ''Could not connect to or create ChromaDB collection.''), s1))
      else (Inr (), s))"

text \<open>
  The first part of \<open>addTool\<close>: an identifier from \<open>uuidv4\<close> if the definition has none,
  the type from \<open>isCore\<close> if it has none.
\<close>

definition assignIdAndType :: "env \<Rightarrow> tool \<Rightarrow> bool \<Rightarrow> state \<Rightarrow> tool \<times> state" where
  "assignIdAndType env toolDefinition isCore s =
     (let (def1, s1) =
            (if \<not> truthy (get_prop toolDefinition ''id'')
             then (set_prop toolDefinition ''id'' (Str (uuidv4 env (uuid_calls s))),
                   s\<lparr>uuid_calls := Suc (uuid_calls s)\<rparr>)
             else (toolDefinition, s));
          def2 =
            (if \<not> truthy (get_prop def1 ''type'')
             then set_prop def1 ''type'' (Str (if isCore then ''core'' else ''llm_generated''))
             else def1)
      in (def2, s1))"

definition embeddingText :: "env \<Rightarrow> tool \<Rightarrow> string" where
  "embeddingText env toolDefinition =
     to_string env (get_prop toolDefinition ''name'') @ '': ''
     @ to_string env (get_prop toolDefinition ''description'')"

text \<open>
  The error with which the engine ends a call that exceeds the call stack.
\<close>

definition call_stack_exceeded :: error where
  "call_stack_exceeded = Error ''Maximum call stack size exceeded''"

text \<open>
  The state in which a call of \<open>addTool\<close> stands when the depth runs out under it: the
  state before the call if the call itself has no depth left, the state after the
  assignment of identifier and type if \<open>_getOrCreateCollection\<close> has none, and else the
  state after the first part of \<open>_getOrCreateCollection\<close>, since with the handle cached
  the calls that follow change nothing (\<open>connect_cached\<close> and \<open>addTool_thrown_state\<close>
  below).
\<close>

definition addTool_stands :: "nat \<Rightarrow> env \<Rightarrow> tool \<Rightarrow> bool \<Rightarrow> state \<Rightarrow> state" where
  "addTool_stands d env toolDefinition isCore s =
     (case d of
        0 \<Rightarrow> s
      | Suc d1 \<Rightarrow>
          (case assignIdAndType env toolDefinition isCore s of
             (def, s1) \<Rightarrow>
               (case d1 of
                  0 \<Rightarrow> s1
                | Suc d2 \<Rightarrow> snd (connect env s1))))"

text \<open>
  \<open>_getOrCreateCollection\<close>, \<open>ensureToolCreationTool\<close> and \<open>addTool\<close> call each other.
  In \<open>ensureToolCreationTool\<close> the inner \<open>case\<close> is the \<open>try\<close> block and the outer
  one the \<open>catch\<close> block, which handles an error of the existence check as well as one
  of the \<open>addTool\<close> inside the \<open>try\<close>, the \<open>RangeError\<close> of a call that does not
  return included; the \<open>addTool\<close> of the \<open>catch\<close> block has no \<open>try\<close> around it.
  The call of \<open>_getOrCreateCollection\<close> stands before the \<open>try\<close>, in \<open>addTool\<close> as
  well.
\<close>

fun getOrCreateCollection :: "nat \<Rightarrow> env \<Rightarrow> state \<Rightarrow> ((error + unit) \<times> state) option"
  and ensureToolCreationTool :: "nat \<Rightarrow> env \<Rightarrow> state \<Rightarrow> ((error + unit) \<times> state) option"
  and addTool :: "nat \<Rightarrow> env \<Rightarrow> tool \<Rightarrow> bool \<Rightarrow> state \<Rightarrow> ((error + tool) \<times> state) option"
where
  "getOrCreateCollection 0 env s = None"
| "getOrCreateCollection (Suc d) env s =
     (case connect env s of
        (Inl e, s1) \<Rightarrow> Some (Inl e, s1)
      | (Inr u, s1) \<Rightarrow>
          (case ensureToolCreationTool d env s1 of
             None \<Rightarrow> None
           | Some (Inl e, s2) \<Rightarrow> Some (Inl e, s2)
           | Some (Inr u, s2) \<Rightarrow> Some (Inr (), s2)))"
| "ensureToolCreationTool 0 env s = None"
| "ensureToolCreationTool (Suc d) env s =
     (case getOrCreateCollection d env s of
        None \<Rightarrow> None
      | Some (Inl e, s1) \<Rightarrow> Some (Inl e, s1)
      | Some (Inr u, s1) \<Rightarrow>
          (case (case collection_get (Str TOOL_CREATION_TOOL_ID) s1 of
                   (Inl e, s2) \<Rightarrow> (Inl e, s2)
                 | (Inr existing, s2) \<Rightarrow>
                     if length existing = 0
                     then (case addTool d env TOOL_CREATION_TOOL_DEF True s2 of
                             None \<Rightarrow>
                               (Inl call_stack_exceeded,
                                addTool_stands d env TOOL_CREATION_TOOL_DEF True s2)
                           | Some (Inl e, s3) \<Rightarrow> (Inl e, s3)
                           | Some (Inr t, s3) \<Rightarrow> (Inr (), s3))
                     else (Inr (), s2)) of
             (Inr u, s2) \<Rightarrow> Some (Inr (), s2)
           | (Inl e, s2) \<Rightarrow>
               if str_includes (message e) ''not found''
               then (case addTool d env TOOL_CREATION_TOOL_DEF True s2 of
                       None \<Rightarrow> None
                     | Some (Inl e', s3) \<Rightarrow> Some (Inl e', s3)
                     | Some (Inr t, s3) \<Rightarrow> Some (Inr (), s3))
               else Some (Inr (), s2)))"
| "addTool 0 env toolDefinition isCore s = None"
| "addTool (Suc d) env toolDefinition isCore s =
     (case assignIdAndType env toolDefinition isCore s of
        (def, s1) \<Rightarrow>
          (case getOrCreateCollection d env s1 of
             None \<Rightarrow> None
           | Some (Inl e, s2) \<Rightarrow> Some (Inl e, s2)
           | Some (Inr u, s2) \<Rightarrow>
               (case collection_upsert (get_prop def ''id'') def (embeddingText env def) s2 of
                  (Inl e, s3) \<Rightarrow> Some (Inl e, s3)
                | (Inr u, s3) \<Rightarrow> Some (Inr def, s3))))"

subsection \<open>Retrieval\<close>

text \<open>
  \<open>getTool\<close>: the stored metadata, or \<open>null\<close> (\<open>None\<close>) when the identifier is absent
  or the store throws. An error of \<open>_getOrCreateCollection\<close> is not caught.
\<close>

fun getTool :: "nat \<Rightarrow> env \<Rightarrow> jsval \<Rightarrow> state \<Rightarrow> ((error + tool option) \<times> state) option" where
  "getTool 0 env ident s = None"
| "getTool (Suc d) env ident s =
     (case getOrCreateCollection d env s of
        None \<Rightarrow> None
      | Some (Inl e, s1) \<Rightarrow> Some (Inl e, s1)
      | Some (Inr u, s1) \<Rightarrow>
          (case collection_get ident s1 of
             (Inl e, s2) \<Rightarrow> Some (Inr None, s2)
           | (Inr metadatas, s2) \<Rightarrow>
               (case metadatas of
                  [] \<Rightarrow> Some (Inr None, s2)
                | m # ms \<Rightarrow> Some (Inr (Some m), s2))))"

text \<open>
  The filter over a \<open>Set\<close> of the identifiers seen: the first tool of each identifier
  stays. Identifiers are compared as values, as the \<open>Set\<close> does for strings, numbers
  and \<open>undefined\<close>.
\<close>

fun uniqueTools :: "jsval list \<Rightarrow> tool list \<Rightarrow> tool list" where
  "uniqueTools uniqueToolIds [] = []"
| "uniqueTools uniqueToolIds (t # ts) =
     (if get_prop t ''id'' \<notin> set uniqueToolIds
      then t # uniqueTools (get_prop t ''id'' # uniqueToolIds) ts
      else uniqueTools uniqueToolIds ts)"

text \<open>\<open>xs.slice(0, e)\<close> for an integer \<open>e\<close>: a negative end counts from the end.\<close>

definition js_slice0 :: "'a list \<Rightarrow> int \<Rightarrow> 'a list" where
  "js_slice0 xs e =
     (if e < 0 then take (nat (int (length xs) + e)) xs else take (nat e) xs)"

text \<open>
  The relevance step of \<open>getAvailableTools\<close>: a query only if the context is not empty
  and there is an embedder; the core tool is filtered out; an error of the query leaves no
  relevant tools.
\<close>

definition relevantTools :: "env \<Rightarrow> string \<Rightarrow> int \<Rightarrow> state \<Rightarrow> tool list \<times> state" where
  "relevantTools env context maxResults s =
     (if context \<noteq> [] \<and> embedder env then
        (case collection_query env context (max 1 maxResults) s of
           (Inr metadatas, s1) \<Rightarrow>
             (filter (\<lambda>t. get_prop t ''id'' \<noteq> Str TOOL_CREATION_TOOL_ID) metadatas, s1)
         | (Inl e, s1) \<Rightarrow> ([], s1))
      else ([], s))"

fun getAvailableTools ::
  "nat \<Rightarrow> env \<Rightarrow> string \<Rightarrow> int \<Rightarrow> state \<Rightarrow> ((error + tool list) \<times> state) option" where
  "getAvailableTools 0 env context maxResults s = None"
| "getAvailableTools (Suc d) env context maxResults s =
     (case getOrCreateCollection d env s of
        None \<Rightarrow> None
      | Some (Inl e, s1) \<Rightarrow> Some (Inl e, s1)
      | Some (Inr u, s1) \<Rightarrow>
          (case relevantTools env context maxResults s1 of
             (relevant, s2) \<Rightarrow>
               (case getTool d env (Str TOOL_CREATION_TOOL_ID) s2 of
                  None \<Rightarrow> None
                | Some (Inl e, s3) \<Rightarrow> Some (Inl e, s3)
                | Some (Inr None, s3) \<Rightarrow> Some (Inr (TOOL_CREATION_TOOL_DEF # relevant), s3)
                | Some (Inr (Some coreTool), s3) \<Rightarrow>
                    Some (Inr (js_slice0 (uniqueTools [] (coreTool # relevant))
                                 (maxResults + 1)), s3))))"

subsection \<open>Tool creation\<close>

text \<open>
  The parsing and the validation steps. A parsed value that passes the validation is an
  object: only an object has a truthy \<open>name\<close>.
\<close>

definition parseToolJson :: "env \<Rightarrow> string \<Rightarrow> error + jsval" where
  "parseToolJson env toolJson =
     (case json_parse env toolJson of
        Inl msg \<Rightarrow>
          Inl (Error (''Failed to parse JSON from LLM response: '' @ msg
                      @ ''. Raw JSON: '' @ toolJson))
      | Inr v \<Rightarrow> Inr v)"

definition missing_fields :: "env \<Rightarrow> jsval \<Rightarrow> error" where
  "missing_fields env generatedToolDef =
     Error (''Generated tool definition is missing required fields ''
            @ ''(name, description, parameters). Definition: ''
            @ json_stringify env generatedToolDef)"

definition invalid_schema :: "env \<Rightarrow> jsval \<Rightarrow> error" where
  "invalid_schema env generatedToolDef =
     Error (''Generated tool parameters are not a valid JSON schema object. Definition: ''
            @ json_stringify env generatedToolDef)"

fun validateToolDef :: "env \<Rightarrow> jsval \<Rightarrow> error + tool" where
  "validateToolDef env (Obj kvs) =
     (let parameters = get_prop kvs ''parameters'' in
      if \<not> truthy (get_prop kvs ''name'') \<or> \<not> truthy (get_prop kvs ''description'')
         \<or> \<not> truthy parameters
      then Inl (missing_fields env (Obj kvs))
      else if \<not> typeof_object parameters \<or> \<not> truthy (prop_of parameters ''type'')
              \<or> \<not> truthy (prop_of parameters ''properties'')
      then Inl (invalid_schema env (Obj kvs))
      else Inr kvs)"
| "validateToolDef env v =
     (case read_prop v ''name'' of
        Inl e \<Rightarrow> Inl e
      | Inr n \<Rightarrow> Inl (missing_fields env v))"

text \<open>Extraction, parsing and validation in sequence: the first error is thrown.\<close>

definition synthesize :: "env \<Rightarrow> string \<Rightarrow> error + tool" where
  "synthesize env rawResponse =
     (case extractJson rawResponse of
        Inl e \<Rightarrow> Inl e
      | Inr toolJson \<Rightarrow>
          (case parseToolJson env toolJson of
             Inl e \<Rightarrow> Inl e
           | Inr generatedToolDef \<Rightarrow> validateToolDef env generatedToolDef))"

datatype creation_result = Created tool | Failed string

text \<open>
  The \<open>try\<close> block of \<open>executeToolCreation\<close>: the completion call, the trimmed content
  of its first choice, the three steps above and \<open>addTool\<close> with \<open>isCore\<close> left at its
  default. The block ends with the definition that \<open>addTool\<close> returns or with the error
  thrown in it; a call of \<open>addTool\<close> that does not return ends the block with the
  \<open>RangeError\<close>.
\<close>

definition tryCreate ::
  "nat \<Rightarrow> env \<Rightarrow> (string \<Rightarrow> string option \<Rightarrow> error + string option) \<Rightarrow> string \<Rightarrow> string option
     \<Rightarrow> state \<Rightarrow> (error + tool) \<times> state" where
  "tryCreate d env llm taskDescription suggestedName s =
     (case llm taskDescription suggestedName of
        Inl e \<Rightarrow> (Inl e, s)
      | Inr content \<Rightarrow>
          (case map_option js_trim content of
             None \<Rightarrow> (Inl (Error ''LLM response was empty.''), s)
           | Some rawResponse \<Rightarrow>
               if rawResponse = [] then (Inl (Error ''LLM response was empty.''), s)
               else
                 (case synthesize env rawResponse of
                    Inl e \<Rightarrow> (Inl e, s)
                  | Inr generatedToolDef \<Rightarrow>
                      (case addTool d env generatedToolDef False s of
                         Some (Inr addedTool, s1) \<Rightarrow> (Inr addedTool, s1)
                       | Some (Inl e, s1) \<Rightarrow> (Inl e, s1)
                       | None \<Rightarrow>
                           (Inl call_stack_exceeded,
                            addTool_stands d env generatedToolDef False s)))))"

text \<open>
  \<open>executeToolCreation\<close>: the check of the client stands before the \<open>try\<close>, so its error
  is thrown; the \<open>catch\<close> turns every error of the block, the \<open>RangeError\<close> included,
  into a result with the message.
\<close>

fun executeToolCreation ::
  "nat \<Rightarrow> env \<Rightarrow> string \<Rightarrow> string option \<Rightarrow> state
     \<Rightarrow> ((error + creation_result) \<times> state) option" where
  "executeToolCreation 0 env taskDescription suggestedName s = None"
| "executeToolCreation (Suc d) env taskDescription suggestedName s =
     (case llmClient s of
        None \<Rightarrow> Some (Inl (Error ''LLMClient is required for tool creation execution.''), s)
      | Some llm \<Rightarrow>
          (case tryCreate d env llm taskDescription suggestedName s of
             (Inl e, s1) \<Rightarrow>
               Some (Inr (Failed (''Failed to create tool: '' @ message e)), s1)
           | (Inr addedTool, s1) \<Rightarrow> Some (Inr (Created addedTool), s1)))"

subsection \<open>The specification's reading of the extraction step\<close>

text \<open>
  By the words of the specification: a response contains a fenced block with contents
  \<open>g\<close> when \<open>g\<close> stands between an opening fence with the \<open>json\<close> tag and a closing
  fence, white space around it apart.
\<close>

definition fenced_block :: "string \<Rightarrow> string \<Rightarrow> bool" where
  "fenced_block rawResponse g \<longleftrightarrow>
     (\<exists>pre ws1 ws2 post.
        rawResponse = pre @ fence_open @ ws1 @ g @ ws2 @ fence @ post
        \<and> list_all js_space ws1 \<and> list_all js_space ws2)"

definition contains_fenced_block :: "string \<Rightarrow> bool" where
  "contains_fenced_block rawResponse \<longleftrightarrow> (\<exists>g. fenced_block rawResponse g)"

text \<open>
  The first fenced block: no block opens further left, its contents begin right after the
  white space that follows the opening fence, and no shorter contents are followed by
  white space and a closing fence. It is unique (\<open>first_fenced_block_unique\<close> below).
\<close>

definition first_fenced_block :: "string \<Rightarrow> string \<Rightarrow> bool" where
  "first_fenced_block rawResponse g \<longleftrightarrow>
     (\<exists>pre ws1 ws2 post.
        rawResponse = pre @ fence_open @ ws1 @ g @ ws2 @ fence @ post
        \<and> list_all js_space ws1 \<and> list_all js_space ws2
        \<and> (\<forall>pre' mid post'.
              rawResponse = pre' @ fence_open @ mid @ fence @ post' \<longrightarrow>
              length pre \<le> length pre')
        \<and> \<not> js_space (hd (g @ ws2 @ fence @ post))
        \<and> (\<forall>g' ws2' post'.
              g @ ws2 @ fence @ post = g' @ ws2' @ fence @ post' \<and> list_all js_space ws2' \<longrightarrow>
              length g \<le> length g'))"

subsection \<open>Example configurations\<close>

text \<open>
  Concrete inputs for the instances below: three completion texts with the values
  \<open>JSON.parse\<close> gives for them, a configuration with and one without an embedder, and the
  state of a freshly constructed manager.
\<close>

definition weather_json :: string where
  \<open>weather_json =
     ''{"name":"get_current_weather","description":"Retrieves the current weather.",''
     @ ''"parameters":{"type":"object","properties":{"city":{"type":"string"}},''
     @ ''"required":["city"]}}''\<close>

definition weather_tool :: tool where
  "weather_tool =
     [(''name'', Str ''get_current_weather''),
      (''description'', Str ''Retrieves the current weather.''),
      (''parameters'', Obj
         [(''type'', Str ''object''),
          (''properties'', Obj [(''city'', Obj [(''type'', Str ''string'')])]),
          (''required'', Arr [Str ''city''])])]"

definition bare_json :: string where
  \<open>bare_json = ''{"name":"f","description":"g","parameters":{"type":"object"}}''\<close>

definition bare_tool :: tool where
  "bare_tool =
     [(''name'', Str ''f''), (''description'', Str ''g''),
      (''parameters'', Obj [(''type'', Str ''object'')])]"

definition tagged_json :: string where
  \<open>tagged_json =
     ''{"id":"x1","type":"core","name":"f","description":"g",''
     @ ''"parameters":{"type":"object","properties":{"a":1}}}''\<close>

definition tagged_tool :: tool where
  "tagged_tool =
     [(''id'', Str ''x1''), (''type'', Str ''core''), (''name'', Str ''f''),
      (''description'', Str ''g''),
      (''parameters'', Obj
         [(''type'', Str ''object''), (''properties'', Obj [(''a'', Num 1)])])]"

definition example_parse :: "string \<Rightarrow> string + jsval" where
  "example_parse text =
     (if text = weather_json then Inr (Obj weather_tool)
      else if text = bare_json then Inr (Obj bare_tool)
      else if text = tagged_json then Inr (Obj tagged_tool)
      else Inl ''Unexpected token'')"

definition example_to_string :: "jsval \<Rightarrow> string" where
  "example_to_string v = (case v of Str text \<Rightarrow> text | _ \<Rightarrow> ''[object Object]'')"

definition example_env :: "bool \<Rightarrow> env" where
  "example_env e =
     \<lparr>embedder = e, json_parse = example_parse, json_stringify = (\<lambda>v. ''{}''),
      to_string = example_to_string, uuidv4 = (\<lambda>n. replicate (Suc n) (CHR ''u'')),
      nearest = (\<lambda>text entries. entries)\<rparr>"

definition fenced :: "string \<Rightarrow> string" where
  "fenced text = fence_open @ [CHR 0x0A] @ text @ [CHR 0x0A] @ fence"

definition reply :: "string \<Rightarrow> string \<Rightarrow> string option \<Rightarrow> error + string option" where
  "reply text taskDescription suggestedName = Inr (Some text)"

definition new_manager ::
  "(string \<Rightarrow> string option \<Rightarrow> error + string option) option \<Rightarrow> state" where
  "new_manager llm =
     \<lparr>collection = None, llmClient = llm, catalog = [], faults = [], uuid_calls = 0\<rparr>"

section \<open>Properties\<close>

subsection \<open>The regular expression finds exactly the fenced blocks\<close>

lemma startsWith_decomp: "startsWith s p \<Longrightarrow> p @ drop (length p) s = s"
  unfolding startsWith_def by (metis append_take_drop_id)

lemma startsWith_append: "startsWith (p @ r) p"
  by (simp add: startsWith_def)

lemma not_space_fence: "\<not> js_space (CHR 0x60)"
  by (simp add: js_space_def)

lemma fence_Cons: "fence = CHR 0x60 # ''``''"
  by (simp add: fence_def)

lemma dropWhile_startsWith:
  assumes "startsWith (dropWhile P s) f"
  shows "\<exists>ws post. s = ws @ f @ post \<and> list_all P ws"
proof -
  have "takeWhile P s @ dropWhile P s = s" by simp
  moreover have "f @ drop (length f) (dropWhile P s) = dropWhile P s"
    using assms by (rule startsWith_decomp)
  ultimately have "s = takeWhile P s @ f @ drop (length f) (dropWhile P s)"
    by metis
  moreover have "list_all P (takeWhile P s)"
    by (auto simp: list_all_iff dest: set_takeWhileD)
  ultimately show ?thesis by blast
qed

lemma lazy_capture_sound:
  "lazy_capture s = Some g \<Longrightarrow>
     \<exists>ws2 post. s = g @ ws2 @ fence @ post \<and> list_all js_space ws2"
proof (induction s arbitrary: g)
  case Nil
  then show ?case by simp
next
  case (Cons c cs)
  show ?case
  proof (cases "startsWith (dropWhile js_space (c # cs)) fence")
    case True
    with Cons.prems have g: "g = []" by (simp del: dropWhile.simps)
    from dropWhile_startsWith [OF True] show ?thesis
      unfolding g by simp
  next
    case False
    with Cons.prems obtain g' where g': "lazy_capture cs = Some g'" and g: "g = c # g'"
      by (auto simp del: dropWhile.simps)
    from Cons.IH [OF g'] obtain ws2 post
      where "cs = g' @ ws2 @ fence @ post" and "list_all js_space ws2" by blast
    then have "c # cs = g @ ws2 @ fence @ post \<and> list_all js_space ws2"
      unfolding g by simp
    then show ?thesis by blast
  qed
qed

lemma lazy_capture_complete: "lazy_capture (a @ fence @ b) \<noteq> None"
proof (induction a)
  case Nil
  have "startsWith (dropWhile js_space (fence @ b)) fence"
    by (simp add: fence_Cons not_space_fence startsWith_def)
  then show ?case by (simp add: fence_Cons del: dropWhile.simps)
next
  case (Cons x a)
  then show ?case by (simp del: dropWhile.simps)
qed

lemma after_open_complete: "after_open (a @ fence @ b) \<noteq> None"
proof -
  define s where "s = a @ fence @ b"
  define n where "n = length (takeWhile js_space s)"
  have "dropWhile js_space s = dropWhile js_space a @ fence @ b"
    unfolding s_def by (simp add: fence_Cons dropWhile_append3 not_space_fence)
  moreover have "drop n s = dropWhile js_space s"
    unfolding n_def by (rule dropWhile_eq_drop [symmetric])
  ultimately have "lazy_capture (drop n s) \<noteq> None"
    using lazy_capture_complete [of "dropWhile js_space a" b] by simp
  then obtain g where g: "lazy_capture (drop n s) = Some g" by blast
  have "rev [0 ..< Suc n] = n # rev [0 ..< n]" by simp
  then have "first_some (map (\<lambda>k. lazy_capture (drop k s)) (rev [0 ..< Suc n])) = Some g"
    using g by (simp del: upt_Suc)
  then show ?thesis
    unfolding after_open_def s_def [symmetric] n_def [symmetric] by simp
qed

lemma fence_match_complete:
  "fence_match (pre @ fence_open @ mid @ fence @ post) \<noteq> None"
proof (induction pre)
  case Nil
  obtain c cs where cs: "fence_open @ mid @ fence @ post = c # cs"
    by (cases "fence_open @ mid @ fence @ post") (simp_all add: fence_open_def)
  have "startsWith (fence_open @ mid @ fence @ post) fence_open"
    by (rule startsWith_append)
  then have st: "startsWith (c # cs) fence_open" unfolding cs .
  have "drop (length fence_open) (fence_open @ mid @ fence @ post) = mid @ fence @ post"
    by simp
  then have "after_open (drop (length fence_open) (c # cs)) \<noteq> None"
    unfolding cs [symmetric] using after_open_complete [of mid post] by simp
  then obtain g where "after_open (drop (length fence_open) (c # cs)) = Some g"
    by blast
  with st have "fence_match (c # cs) = Some g"
    by (simp del: drop_Suc_Cons)
  then show ?case unfolding append_Nil cs by simp
next
  case (Cons x pre)
  then show ?case by (simp del: drop_Suc_Cons split: option.splits)
qed

lemma fence_match_None:
  assumes "fence_match s = None"
  shows "\<not> contains_fenced_block s"
proof
  assume "contains_fenced_block s"
  then obtain g pre ws1 ws2 post
    where "s = pre @ fence_open @ ws1 @ g @ ws2 @ fence @ post"
    unfolding contains_fenced_block_def fenced_block_def by blast
  then have "s = pre @ fence_open @ (ws1 @ g @ ws2) @ fence @ post" by simp
  with fence_match_complete [of pre "ws1 @ g @ ws2" post] assms
  show False by simp
qed

lemma dropWhile_spaces_fence:
  "list_all js_space ws \<Longrightarrow> dropWhile js_space (ws @ fence @ post) = fence @ post"
  by (simp add: list_all_iff dropWhile_append2 fence_Cons not_space_fence)

lemma lazy_capture_shortest:
  "lazy_capture s = Some g \<Longrightarrow> s = g' @ ws' @ fence @ post' \<Longrightarrow> list_all js_space ws' \<Longrightarrow>
     length g \<le> length g'"
proof (induction s arbitrary: g g')
  case Nil
  then show ?case by simp
next
  case (Cons c cs)
  show ?case
  proof (cases "startsWith (dropWhile js_space (c # cs)) fence")
    case True
    with Cons.prems(1) show ?thesis by (simp del: dropWhile.simps)
  next
    case False
    with Cons.prems(1) obtain g0 where g0: "lazy_capture cs = Some g0" and g: "g = c # g0"
      by (auto simp del: dropWhile.simps)
    have "g' \<noteq> []"
    proof
      assume "g' = []"
      with Cons.prems(2) have "c # cs = ws' @ fence @ post'" by simp
      then have "dropWhile js_space (c # cs) = fence @ post'"
        using dropWhile_spaces_fence [OF Cons.prems(3)] by metis
      then have "startsWith (dropWhile js_space (c # cs)) fence"
        using startsWith_append by metis
      with False show False by simp
    qed
    then obtain g1 where g': "g' = c # g1" and cs: "cs = g1 @ ws' @ fence @ post'"
      using Cons.prems(2) by (cases g') auto
    from Cons.IH [OF g0 cs Cons.prems(3)] show ?thesis
      unfolding g g' by simp
  qed
qed

lemma lazy_capture_drop_spaces:
  assumes "k \<le> length (takeWhile js_space s)"
    and "lazy_capture (dropWhile js_space s) = None"
  shows "lazy_capture (drop k s) = None"
proof (rule ccontr)
  assume "lazy_capture (drop k s) \<noteq> None"
  then obtain g where "lazy_capture (drop k s) = Some g" by blast
  from lazy_capture_sound [OF this] obtain ws2 post
    where d: "drop k s = g @ ws2 @ fence @ post" by blast
  have "takeWhile js_space s @ dropWhile js_space s = s" by simp
  then have "drop k (takeWhile js_space s @ dropWhile js_space s) = drop k s" by metis
  then have e: "drop k s = drop k (takeWhile js_space s) @ dropWhile js_space s"
    using assms(1) by (simp del: takeWhile_dropWhile_id)
  have sp: "\<forall>x\<in>set (drop k (takeWhile js_space s)). js_space x"
    by (auto dest: in_set_dropD set_takeWhileD)
  have nd: "dropWhile js_space (dropWhile js_space s) = dropWhile js_space s"
    by (simp add: dropWhile_idem)
  have "dropWhile js_space (drop k s) = dropWhile js_space s"
    unfolding e using sp nd by (simp add: dropWhile_append2 del: dropWhile_idem)
  moreover have "dropWhile js_space (drop k s) = dropWhile js_space (g @ ws2) @ fence @ post"
    unfolding d
    using dropWhile_append3 [of js_space "CHR 0x60" "g @ ws2" "''``'' @ post"]
    by (simp add: fence_Cons not_space_fence)
  ultimately have "dropWhile js_space s = dropWhile js_space (g @ ws2) @ fence @ post"
    by simp
  with lazy_capture_complete [of "dropWhile js_space (g @ ws2)" post] assms(2)
  show False by simp
qed

lemma first_some_all_None:
  "(\<And>x. x \<in> set xs \<Longrightarrow> f x = None) \<Longrightarrow> first_some (map f xs) = None"
  by (induction xs) auto

lemma after_open_greedy: "after_open s = lazy_capture (dropWhile js_space s)"
proof -
  define n where "n = length (takeWhile js_space s)"
  have dn: "drop n s = dropWhile js_space s"
    unfolding n_def by (rule dropWhile_eq_drop [symmetric])
  have r: "rev [0 ..< Suc n] = n # rev [0 ..< n]" by simp
  show ?thesis
  proof (cases "lazy_capture (dropWhile js_space s)")
    case None
    have "first_some (map (\<lambda>k. lazy_capture (drop k s)) (rev [0 ..< Suc n])) = None"
    proof (rule first_some_all_None)
      fix k assume "k \<in> set (rev [0 ..< Suc n])"
      then have "k \<le> length (takeWhile js_space s)"
        unfolding n_def by (simp del: upt_Suc)
      then show "lazy_capture (drop k s) = None"
        using None by (rule lazy_capture_drop_spaces)
    qed
    with None show ?thesis unfolding after_open_def n_def by simp
  next
    case (Some g)
    then have "first_some (map (\<lambda>k. lazy_capture (drop k s)) (rev [0 ..< Suc n])) = Some g"
      unfolding r using dn by simp
    with Some show ?thesis unfolding after_open_def n_def by simp
  qed
qed

lemma after_open_first:
  assumes "after_open s = Some g"
  shows "\<exists>ws1 ws2 post. s = ws1 @ g @ ws2 @ fence @ post
           \<and> list_all js_space ws1 \<and> list_all js_space ws2
           \<and> \<not> js_space (hd (g @ ws2 @ fence @ post))
           \<and> (\<forall>g' ws2' post'.
                 g @ ws2 @ fence @ post = g' @ ws2' @ fence @ post' \<and> list_all js_space ws2'
                 \<longrightarrow> length g \<le> length g')"
proof -
  define r where "r = dropWhile js_space s"
  from assms have c: "lazy_capture r = Some g"
    unfolding r_def by (simp add: after_open_greedy)
  from lazy_capture_sound [OF c] obtain ws2 post
    where d: "r = g @ ws2 @ fence @ post" and w2: "list_all js_space ws2" by blast
  have "r \<noteq> []" unfolding d by (simp add: fence_Cons)
  then have h: "\<not> js_space (hd r)"
    unfolding r_def by (rule hd_dropWhile)
  have "takeWhile js_space s @ r = s" unfolding r_def by simp
  then have s: "s = takeWhile js_space s @ g @ ws2 @ fence @ post"
    unfolding d by (rule sym)
  have w1: "list_all js_space (takeWhile js_space s)"
    by (auto simp: list_all_iff dest: set_takeWhileD)
  have m: "\<forall>g' ws2' post'.
      g @ ws2 @ fence @ post = g' @ ws2' @ fence @ post' \<and> list_all js_space ws2'
      \<longrightarrow> length g \<le> length g'"
    using lazy_capture_shortest [OF c] unfolding d by blast
  from s w1 w2 h m show ?thesis unfolding d by blast
qed

lemma fence_match_first:
  "fence_match s = Some g \<Longrightarrow> first_fenced_block s g"
proof (induction s)
  case Nil
  then show ?case by simp
next
  case (Cons c cs)
  show ?case
  proof (cases "startsWith (c # cs) fence_open
                  \<and> after_open (drop (length fence_open) (c # cs)) \<noteq> None")
    case True
    then have st: "startsWith (c # cs) fence_open" by simp
    from True Cons.prems
    have a: "after_open (drop (length fence_open) (c # cs)) = Some g"
      by (auto simp del: drop_Suc_Cons)
    from after_open_first [OF a] obtain ws1 ws2 post
      where d: "drop (length fence_open) (c # cs) = ws1 @ g @ ws2 @ fence @ post"
        and w: "list_all js_space ws1" "list_all js_space ws2"
        and h: "\<not> js_space (hd (g @ ws2 @ fence @ post))"
        and m: "\<forall>g' ws2' post'.
          g @ ws2 @ fence @ post = g' @ ws2' @ fence @ post' \<and> list_all js_space ws2'
          \<longrightarrow> length g \<le> length g'"
      by blast
    have "fence_open @ drop (length fence_open) (c # cs) = c # cs"
      using st by (rule startsWith_decomp)
    then have e: "c # cs = [] @ fence_open @ ws1 @ g @ ws2 @ fence @ post"
      unfolding d by simp
    have l: "\<forall>pre' mid post'. c # cs = pre' @ fence_open @ mid @ fence @ post'
        \<longrightarrow> length ([]::string) \<le> length pre'"
      by simp
    from e w l h m show ?thesis unfolding first_fenced_block_def by blast
  next
    case False
    with Cons.prems have "fence_match cs = Some g"
      by (auto simp del: drop_Suc_Cons split: if_splits option.splits)
    from Cons.IH [OF this] obtain pre ws1 ws2 post
      where e: "cs = pre @ fence_open @ ws1 @ g @ ws2 @ fence @ post"
        and w: "list_all js_space ws1" "list_all js_space ws2"
        and l: "\<forall>pre' mid post'. cs = pre' @ fence_open @ mid @ fence @ post'
          \<longrightarrow> length pre \<le> length pre'"
        and h: "\<not> js_space (hd (g @ ws2 @ fence @ post))"
        and m: "\<forall>g' ws2' post'.
          g @ ws2 @ fence @ post = g' @ ws2' @ fence @ post' \<and> list_all js_space ws2'
          \<longrightarrow> length g \<le> length g'"
      unfolding first_fenced_block_def by blast
    from e have e': "c # cs = (c # pre) @ fence_open @ ws1 @ g @ ws2 @ fence @ post"
      by simp
    have l': "\<forall>pre' mid post'. c # cs = pre' @ fence_open @ mid @ fence @ post'
        \<longrightarrow> length (c # pre) \<le> length pre'"
    proof (intro allI impI)
      fix pre' mid post'
      assume x: "c # cs = pre' @ fence_open @ mid @ fence @ post'"
      have "pre' \<noteq> []"
      proof
        assume "pre' = []"
        with x have y: "c # cs = fence_open @ mid @ fence @ post'" by simp
        have "startsWith (c # cs) fence_open"
          unfolding y by (rule startsWith_append)
        moreover have "after_open (drop (length fence_open) (c # cs)) \<noteq> None"
          unfolding y using after_open_complete [of mid post'] by simp
        ultimately show False using False by simp
      qed
      then obtain p where p: "pre' = c # p" and "cs = p @ fence_open @ mid @ fence @ post'"
        using x by (cases pre') auto
      with l have "length pre \<le> length p" by blast
      then show "length (c # pre) \<le> length pre'" unfolding p by simp
    qed
    from e' w l' h m show ?thesis unfolding first_fenced_block_def by blast
  qed
qed

lemma takeWhile_spaces_prefix:
  assumes "list_all P ws" and "r \<noteq> []" and "\<not> P (hd r)"
  shows "takeWhile P (ws @ r) = ws"
proof -
  obtain x xs where r: "r = x # xs" using assms(2) by (cases r) auto
  with assms(3) have "\<not> P x" by simp
  then have "takeWhile P (ws @ x # xs) = takeWhile P ws" by (rule takeWhile_tail)
  also have "\<dots> = ws" using assms(1) by (simp add: list_all_iff)
  finally show ?thesis unfolding r .
qed

lemma first_fenced_block_unique:
  assumes "first_fenced_block s g" and "first_fenced_block s g'"
  shows "g = g'"
proof -
  from assms(1) obtain pre ws1 ws2 post
    where e: "s = pre @ fence_open @ ws1 @ g @ ws2 @ fence @ post"
      and w: "list_all js_space ws1" "list_all js_space ws2"
      and l: "\<forall>pre' mid post'. s = pre' @ fence_open @ mid @ fence @ post'
        \<longrightarrow> length pre \<le> length pre'"
      and h: "\<not> js_space (hd (g @ ws2 @ fence @ post))"
      and m: "\<forall>g' ws2' post'.
        g @ ws2 @ fence @ post = g' @ ws2' @ fence @ post' \<and> list_all js_space ws2'
        \<longrightarrow> length g \<le> length g'"
    unfolding first_fenced_block_def by blast
  from assms(2) obtain pre' ws1' ws2' post'
    where e': "s = pre' @ fence_open @ ws1' @ g' @ ws2' @ fence @ post'"
      and w': "list_all js_space ws1'" "list_all js_space ws2'"
      and l': "\<forall>pre mid post. s = pre @ fence_open @ mid @ fence @ post
        \<longrightarrow> length pre' \<le> length pre"
      and h': "\<not> js_space (hd (g' @ ws2' @ fence @ post'))"
      and m': "\<forall>g ws2 post.
        g' @ ws2' @ fence @ post' = g @ ws2 @ fence @ post \<and> list_all js_space ws2
        \<longrightarrow> length g' \<le> length g"
    unfolding first_fenced_block_def by blast
  have "s = pre @ fence_open @ (ws1 @ g @ ws2) @ fence @ post" using e by simp
  with l' have a: "length pre' \<le> length pre" by blast
  have "s = pre' @ fence_open @ (ws1' @ g' @ ws2') @ fence @ post'" using e' by simp
  with l have "length pre \<le> length pre'" by blast
  with a have "length pre = length pre'" by simp
  moreover have "pre @ fence_open @ ws1 @ g @ ws2 @ fence @ post =
      pre' @ fence_open @ ws1' @ g' @ ws2' @ fence @ post'"
    using e e' by simp
  ultimately have q: "ws1 @ g @ ws2 @ fence @ post = ws1' @ g' @ ws2' @ fence @ post'"
    by simp
  have n: "g @ ws2 @ fence @ post \<noteq> []" "g' @ ws2' @ fence @ post' \<noteq> []"
    by (simp_all add: fence_Cons)
  have "ws1 = takeWhile js_space (ws1 @ g @ ws2 @ fence @ post)"
    using takeWhile_spaces_prefix [OF w(1) n(1) h] by simp
  also have "\<dots> = takeWhile js_space (ws1' @ g' @ ws2' @ fence @ post')"
    unfolding q ..
  also have "\<dots> = ws1'"
    using takeWhile_spaces_prefix [OF w'(1) n(2) h'] by simp
  finally have "ws1 = ws1'" .
  with q have t: "g @ ws2 @ fence @ post = g' @ ws2' @ fence @ post'" by simp
  with m w'(2) have "length g \<le> length g'" by blast
  moreover from t m' w(2) have "length g' \<le> length g" by metis
  ultimately have "length g = length g'" by simp
  with t show ?thesis by simp
qed

lemma first_fenced_block_contains:
  assumes "first_fenced_block s g"
  shows "contains_fenced_block s"
proof -
  from assms obtain pre ws1 ws2 post
    where "s = pre @ fence_open @ ws1 @ g @ ws2 @ fence @ post"
      and "list_all js_space ws1" and "list_all js_space ws2"
    unfolding first_fenced_block_def by blast
  then have "fenced_block s g" unfolding fenced_block_def by blast
  then show ?thesis unfolding contains_fenced_block_def by blast
qed

subsection \<open>The connection step never returns a handle\<close>

text \<open>
  Once a handle is cached, \<open>_getOrCreateCollection\<close> goes straight to
  \<open>ensureToolCreationTool\<close>, whose first statement is a call of
  \<open>_getOrCreateCollection\<close>: the two call each other without end. So a call of
  \<open>_getOrCreateCollection\<close> either throws in its first part or does not return.
\<close>

lemma connect_Inr: "connect env s = (Inr u, s1) \<Longrightarrow> collection s1 \<noteq> None"
  by (auto simp: connect_def split: if_splits prod.splits sum.splits)

lemma cached_no_return:
  "collection s \<noteq> None \<Longrightarrow>
     getOrCreateCollection d env s = None \<and> ensureToolCreationTool d env s = None"
proof (induction d)
  case 0
  show ?case by simp
next
  case (Suc d)
  have c: "connect env s = (Inr (), s)"
    using Suc.prems by (simp add: connect_def)
  show ?case using Suc.IH [OF Suc.prems] c by simp
qed

lemma getOrCreateCollection_Suc:
  "getOrCreateCollection (Suc d) env s =
     (case connect env s of (Inl e, s1) \<Rightarrow> Some (Inl e, s1) | (Inr u, s1) \<Rightarrow> None)"
proof (cases "connect env s")
  case (Pair r s1)
  show ?thesis
  proof (cases r)
    case (Inl e)
    with Pair show ?thesis by simp
  next
    case (Inr u)
    with Pair have "collection s1 \<noteq> None" by (simp add: connect_Inr)
    then have "ensureToolCreationTool d env s1 = None" by (simp add: cached_no_return)
    with Pair Inr show ?thesis by simp
  qed
qed

lemma getOrCreateCollection_no_return:
  "getOrCreateCollection d env s \<noteq> Some (Inr u, s')"
proof (cases d)
  case 0
  then show ?thesis by simp
next
  case (Suc d')
  show ?thesis
    unfolding Suc getOrCreateCollection_Suc
    by (simp split: prod.splits sum.splits)
qed

lemma getOrCreateCollection_outcome:
  "getOrCreateCollection d env s = None
   \<or> (\<exists>e s1. getOrCreateCollection d env s = Some (Inl e, s1))"
proof (cases "getOrCreateCollection d env s")
  case None
  then show ?thesis by simp
next
  case (Some p)
  obtain r s1 where p: "p = (r, s1)" by (cases p)
  with Some getOrCreateCollection_no_return [of d env s] obtain e where "r = Inl e"
    by (cases r) auto
  with Some p show ?thesis by simp
qed

lemma connect_succeeds:
  "embedder env \<Longrightarrow> faults s = [] \<Longrightarrow> \<exists>s1. connect env s = (Inr (), s1)"
  by (simp add: connect_def chroma_getOrCreateCollection_def take_fault_def)

lemma connected_no_return:
  assumes "embedder env" and "faults s = []"
  shows "getOrCreateCollection d env s = None"
proof (cases d)
  case 0
  then show ?thesis by simp
next
  case (Suc d')
  from connect_succeeds [OF assms] obtain s1 where "connect env s = (Inr (), s1)" ..
  then show ?thesis unfolding Suc getOrCreateCollection_Suc by simp
qed

subsection \<open>Unfolding tool creation\<close>

text \<open>
  \<open>addTool\<close> throws or does not return, and the state in which it throws is the state in
  which it stands when it does not return. So the \<open>try\<close> block of
  \<open>executeToolCreation\<close> always ends with an error.
\<close>

lemma connect_cached: "collection s \<noteq> None \<Longrightarrow> connect env s = (Inr (), s)"
  by (simp add: connect_def)

lemma addTool_outcome:
  "addTool d env toolDefinition isCore s = None
   \<or> (\<exists>e s1. addTool d env toolDefinition isCore s = Some (Inl e, s1))"
proof (cases d)
  case 0
  then show ?thesis by simp
next
  case (Suc d')
  obtain def s0 where a: "assignIdAndType env toolDefinition isCore s = (def, s0)"
    by (cases "assignIdAndType env toolDefinition isCore s")
  from getOrCreateCollection_outcome [of d' env s0] show ?thesis
    unfolding Suc using a by auto
qed

lemma addTool_thrown_state:
  assumes "addTool d env toolDefinition isCore s = Some (r, s')"
  shows "s' = addTool_stands d env toolDefinition isCore s"
proof -
  from assms obtain d1 where d: "d = Suc d1" by (cases d) auto
  obtain def s1 where a: "assignIdAndType env toolDefinition isCore s = (def, s1)"
    by (cases "assignIdAndType env toolDefinition isCore s")
  from getOrCreateCollection_outcome [of d1 env s1] assms
  obtain e where g: "getOrCreateCollection d1 env s1 = Some (Inl e, s')"
    unfolding d using a by auto
  then obtain d2 where d1: "d1 = Suc d2" by (cases d1) auto
  from g have "snd (connect env s1) = s'"
    unfolding d1 getOrCreateCollection_Suc by (simp split: prod.splits sum.splits)
  then show ?thesis
    unfolding d d1 using a by (simp add: addTool_stands_def)
qed

lemma executeToolCreation_with_client:
  "llmClient s = Some llm \<Longrightarrow>
     executeToolCreation (Suc d) env taskDescription suggestedName s =
       (case tryCreate d env llm taskDescription suggestedName s of
          (Inl e, s1) \<Rightarrow>
            Some (Inr (Failed (''Failed to create tool: '' @ message e)), s1)
        | (Inr addedTool, s1) \<Rightarrow> Some (Inr (Created addedTool), s1))"
  by simp

lemma tryCreate_synthesize:
  "llm taskDescription suggestedName = Inr (Some content) \<Longrightarrow> js_trim content \<noteq> [] \<Longrightarrow>
     tryCreate d env llm taskDescription suggestedName s =
       (case synthesize env (js_trim content) of
          Inl e \<Rightarrow> (Inl e, s)
        | Inr generatedToolDef \<Rightarrow>
            (case addTool d env generatedToolDef False s of
               Some (Inr addedTool, s1) \<Rightarrow> (Inr addedTool, s1)
             | Some (Inl e, s1) \<Rightarrow> (Inl e, s1)
             | None \<Rightarrow>
                 (Inl call_stack_exceeded,
                  addTool_stands d env generatedToolDef False s)))"
  by (simp add: tryCreate_def)

lemma tryCreate_throws:
  "\<exists>e s1. tryCreate d env llm taskDescription suggestedName s = (Inl e, s1)"
proof -
  have "\<exists>e s1. (case addTool d env def False s of
                  Some (Inr addedTool, s1) \<Rightarrow> (Inr addedTool, s1)
                | Some (Inl e, s1) \<Rightarrow> (Inl e, s1)
                | None \<Rightarrow> (Inl call_stack_exceeded, addTool_stands d env def False s))
               = (Inl e, s1)" for "def"
    using addTool_outcome [of d env "def" False s] by auto
  then show ?thesis
    unfolding tryCreate_def
    by (auto split: sum.splits option.splits)
qed

lemma tryCreate_valid_connected:
  assumes "llm taskDescription suggestedName = Inr (Some content)"
    and "js_trim content \<noteq> []"
    and "synthesize env (js_trim content) = Inr def"
    and "assignIdAndType env def False s = (def', s1)"
    and "embedder env" and "faults s1 = []"
  shows "tryCreate (Suc (Suc d)) env llm taskDescription suggestedName s =
           (Inl call_stack_exceeded, snd (connect env s1))"
proof -
  have "getOrCreateCollection (Suc d) env s1 = None"
    using assms(5,6) by (rule connected_no_return)
  then have "addTool (Suc (Suc d)) env def False s = None"
    using assms(4) by simp
  then show ?thesis
    unfolding tryCreate_synthesize [of llm taskDescription suggestedName content, OF assms(1,2)]
      assms(3)
    using assms(4) by (simp add: addTool_stands_def)
qed

subsection \<open>The example configurations, evaluated\<close>

lemma trim_plain: "js_trim ''I cannot do that.'' = ''I cannot do that.''"
  by (simp add: js_trim_def js_space_def)

lemma synthesize_plain:
  "synthesize (example_env True) ''I cannot do that.'' =
     Inl (format_error ''I cannot do that.'')"
  by (simp add: synthesize_def extractJson_def startsWith_def endsWith_def fence_open_def)

lemma trim_fenced_bare: "js_trim (fenced bare_json) = fenced bare_json"
  by (simp add: js_trim_def js_space_def fenced_def fence_open_def fence_def bare_json_def)

lemma match_fenced_bare: "fence_match (fenced bare_json) = Some bare_json"
  by (simp add: fenced_def startsWith_def fence_open_def fence_def after_open_def
      js_space_def bare_json_def)

lemma synthesize_bare:
  "synthesize (example_env True) (fenced bare_json) =
     Inl (invalid_schema (example_env True) (Obj bare_tool))"
proof -
  have "extractJson (fenced bare_json) = Inr bare_json"
    using match_fenced_bare by (simp add: extractJson_def bare_json_def)
  moreover have "parseToolJson (example_env True) bare_json = Inr (Obj bare_tool)"
    by (simp add: parseToolJson_def example_env_def example_parse_def bare_json_def
        weather_json_def)
  moreover have "validateToolDef (example_env True) (Obj bare_tool) =
      Inl (invalid_schema (example_env True) (Obj bare_tool))"
    by (simp add: bare_tool_def get_prop_def)
  ultimately show ?thesis by (simp add: synthesize_def)
qed

lemma trim_fenced_weather: "js_trim (fenced weather_json) = fenced weather_json"
  by (simp add: js_trim_def js_space_def fenced_def fence_open_def fence_def weather_json_def)

lemma match_fenced_weather: "fence_match (fenced weather_json) = Some weather_json"
  by (simp add: fenced_def startsWith_def fence_open_def fence_def after_open_def
      js_space_def weather_json_def)

lemma synthesize_weather:
  "synthesize (example_env True) (fenced weather_json) = Inr weather_tool"
proof -
  have "extractJson (fenced weather_json) = Inr weather_json"
    using match_fenced_weather by (simp add: extractJson_def weather_json_def)
  moreover have "parseToolJson (example_env True) weather_json = Inr (Obj weather_tool)"
    by (simp add: parseToolJson_def example_env_def example_parse_def)
  moreover have "validateToolDef (example_env True) (Obj weather_tool) = Inr weather_tool"
    by (simp add: weather_tool_def get_prop_def)
  ultimately show ?thesis by (simp add: synthesize_def)
qed

lemma assign_weather:
  "assignIdAndType (example_env True) weather_tool False (new_manager llm) =
     (weather_tool @ [(''id'', Str ''u''), (''type'', Str ''llm_generated'')],
      (new_manager llm)\<lparr>uuid_calls := 1\<rparr>)"
  by (simp add: assignIdAndType_def weather_tool_def get_prop_def set_prop_def
      example_env_def new_manager_def)

lemma addTool_weather:
  "addTool (Suc (Suc d)) (example_env True) weather_tool False (new_manager llm) = None"
proof -
  have "getOrCreateCollection (Suc d) (example_env True)
      ((new_manager llm)\<lparr>uuid_calls := 1\<rparr>) = None"
    by (rule connected_no_return) (simp_all add: example_env_def new_manager_def)
  then show ?thesis by (simp add: assign_weather)
qed

lemma addTool_stands_weather:
  "addTool_stands (Suc (Suc d)) (example_env True) weather_tool False (new_manager llm) =
     \<lparr>collection = Some (), llmClient = llm, catalog = [], faults = [], uuid_calls = 1\<rparr>"
  by (simp add: addTool_stands_def assign_weather)
    (simp add: connect_def chroma_getOrCreateCollection_def take_fault_def example_env_def
      new_manager_def)

lemma executeToolCreation_weather:
  "executeToolCreation (Suc (Suc (Suc d))) (example_env True) ''weather for a city'' None
     (new_manager (Some (reply (fenced weather_json)))) =
   Some (Inr (Failed ''Failed to create tool: Maximum call stack size exceeded''),
         \<lparr>collection = Some (), llmClient = Some (reply (fenced weather_json)),
            catalog = [], faults = [], uuid_calls = 1\<rparr>)"
proof -
  let ?llm = "reply (fenced weather_json)"
  let ?s = "new_manager (Some ?llm)"
  have c: "llmClient ?s = Some ?llm" by (simp add: new_manager_def)
  have r: "?llm ''weather for a city'' None = Inr (Some (fenced weather_json))"
    by (simp add: reply_def)
  have n: "js_trim (fenced weather_json) \<noteq> []"
    unfolding trim_fenced_weather by (simp add: fenced_def fence_open_def)
  have v: "synthesize (example_env True) (js_trim (fenced weather_json)) = Inr weather_tool"
    by (simp add: trim_fenced_weather synthesize_weather)
  have e: "embedder (example_env True)" by (simp add: example_env_def)
  have f: "faults (?s\<lparr>uuid_calls := 1\<rparr>) = []" by (simp add: new_manager_def)
  have k: "snd (connect (example_env True) (?s\<lparr>uuid_calls := 1\<rparr>)) =
      \<lparr>collection = Some (), llmClient = Some ?llm, catalog = [], faults = [],
         uuid_calls = 1\<rparr>"
    by (simp add: connect_def chroma_getOrCreateCollection_def take_fault_def
        example_env_def new_manager_def)
  have t: "tryCreate (Suc (Suc d)) (example_env True) ?llm ''weather for a city'' None ?s =
      (Inl call_stack_exceeded, snd (connect (example_env True) (?s\<lparr>uuid_calls := 1\<rparr>)))"
    using r n v assign_weather [of "Some (reply (fenced weather_json))"] e f
    by (rule tryCreate_valid_connected)
  show ?thesis
    unfolding executeToolCreation_with_client [OF c] t k
    by (simp add: call_stack_exceeded_def)
qed

section \<open>The claims\<close>

text \<open>
  Claim C1: a call of \<open>_getOrCreateCollection\<close> establishes or reuses the connection,
  runs the check of the core tool and returns, in every state of the manager, the one with
  a cached handle included. The embedding shows the opposite: at no depth of calls does
  \<open>_getOrCreateCollection\<close> return a handle, and from a state with a cached handle it
  does not return at all.
\<close>

theorem getOrCreateCollection_never_returns:
  "getOrCreateCollection d env s \<noteq> Some (Inr u, s')
   \<and> getOrCreateCollection d env (s\<lparr>collection := Some h\<rparr>) = None"
  using getOrCreateCollection_no_return [of d env s u s']
    cached_no_return [of "s\<lparr>collection := Some h\<rparr>" d env]
  by simp

text \<open>
  Claim C2: the list that \<open>getAvailableTools\<close> returns has the core tool first and
  nowhere else, at most \<open>maxResults\<close> further entries, and pairwise distinct identifiers.
  The method awaits \<open>_getOrCreateCollection\<close> first, so in no state, for no context and
  no \<open>maxResults\<close>, at no depth of calls does it return a list.
\<close>

theorem getAvailableTools_never_returns:
  "getAvailableTools d env context maxResults s \<noteq> Some (Inr tools, s')"
proof (cases d)
  case 0
  then show ?thesis by simp
next
  case (Suc d')
  from getOrCreateCollection_outcome [of d' env s] show ?thesis
    unfolding Suc by auto
qed

text \<open>
  Claim C5: with an empty context and the core tool stored, \<open>getAvailableTools\<close> returns
  exactly the core tool. With an embedder and a store that answers every call, whatever
  the catalog holds, the call with the empty context does not return.
\<close>

theorem getAvailableTools_empty_context_no_result:
  "getAvailableTools d (env\<lparr>embedder := True\<rparr>) [] maxResults (s\<lparr>faults := []\<rparr>) = None"
proof (cases d)
  case 0
  then show ?thesis by simp
next
  case (Suc d')
  have "getOrCreateCollection d' (env\<lparr>embedder := True\<rparr>) (s\<lparr>faults := []\<rparr>) = None"
    by (rule connected_no_return) simp_all
  then show ?thesis unfolding Suc by simp
qed

text \<open>
  Claim C7: \<open>addTool\<close> followed by \<open>getTool\<close> on the assigned identifier returns the
  stored definition. \<open>addTool\<close> awaits \<open>_getOrCreateCollection\<close> before the upsert, so
  it never returns a definition: there is no identifier to look up.
\<close>

theorem addTool_never_returns:
  "addTool d env toolDefinition isCore s \<noteq> Some (Inr t, s')"
proof (cases d)
  case 0
  then show ?thesis by simp
next
  case (Suc d')
  obtain def s0 where a: "assignIdAndType env toolDefinition isCore s = (def, s0)"
    by (cases "assignIdAndType env toolDefinition isCore s")
  from getOrCreateCollection_outcome [of d' env s0] show ?thesis
    unfolding Suc using a by auto
qed

text \<open>
  Claim C10: when the existence check of \<open>ensureToolCreationTool\<close> throws an error
  whose message lacks \<open>not found\<close>, the error is only logged and the operation completes
  without an upsert. The existence check stands behind the call of
  \<open>_getOrCreateCollection\<close>, so it is never reached: \<open>ensureToolCreationTool\<close> does not
  complete at any depth of calls.
\<close>

theorem ensureToolCreationTool_never_returns:
  "ensureToolCreationTool d env s \<noteq> Some (Inr u, s')"
proof (cases d)
  case 0
  then show ?thesis by simp
next
  case (Suc d')
  from getOrCreateCollection_outcome [of d' env s] show ?thesis
    unfolding Suc by auto
qed

text \<open>
  Claim C3, as amended: \<open>executeToolCreation\<close> raises to its caller exactly when no
  completion client is configured, and then with the error of the check that stands
  before the \<open>try\<close>; with a client configured every call returns a result and none
  raises: every error thrown inside the \<open>try\<close> block comes back as a result that
  carries the message, and so does, for a completion that passes the validation, the
  error that \<open>addTool\<close> throws or the \<open>RangeError\<close> in which it ends.
\<close>

theorem executeToolCreation_raises_only_without_client:
  "(llmClient s = None \<longrightarrow>
      executeToolCreation (Suc d) env taskDescription suggestedName s =
        Some (Inl (Error ''LLMClient is required for tool creation execution.''), s))
   \<and> (llmClient s \<noteq> None \<longrightarrow>
        (\<exists>r s'. executeToolCreation (Suc d) env taskDescription suggestedName s =
                  Some (Inr r, s')))
   \<and> (llmClient s = Some llm
        \<and> tryCreate d env llm taskDescription suggestedName s = (Inl e, s') \<longrightarrow>
        executeToolCreation (Suc d) env taskDescription suggestedName s =
          Some (Inr (Failed (''Failed to create tool: '' @ message e)), s'))
   \<and> (llmClient s = Some llm
        \<and> llm taskDescription suggestedName = Inr (Some content)
        \<and> js_trim content \<noteq> []
        \<and> synthesize env (js_trim content) = Inr def \<longrightarrow>
        (\<exists>e1 s1.
           (addTool d env def False s = Some (Inl e1, s1)
            \<or> addTool d env def False s = None \<and> e1 = call_stack_exceeded
              \<and> s1 = addTool_stands d env def False s)
           \<and> executeToolCreation (Suc d) env taskDescription suggestedName s =
               Some (Inr (Failed (''Failed to create tool: '' @ message e1)), s1)))"
proof (intro conjI impI)
  assume "llmClient s = None"
  then show "executeToolCreation (Suc d) env taskDescription suggestedName s =
      Some (Inl (Error ''LLMClient is required for tool creation execution.''), s)"
    by simp
next
  assume "llmClient s \<noteq> None"
  then obtain llm' where l: "llmClient s = Some llm'" by blast
  obtain r s1 where "tryCreate d env llm' taskDescription suggestedName s = (r, s1)"
    by (cases "tryCreate d env llm' taskDescription suggestedName s")
  then show "\<exists>r s'. executeToolCreation (Suc d) env taskDescription suggestedName s =
      Some (Inr r, s')"
    unfolding executeToolCreation_with_client [OF l] by (cases r) simp_all
next
  assume "llmClient s = Some llm
    \<and> tryCreate d env llm taskDescription suggestedName s = (Inl e, s')"
  then show "executeToolCreation (Suc d) env taskDescription suggestedName s =
      Some (Inr (Failed (''Failed to create tool: '' @ message e)), s')"
    by simp
next
  assume a: "llmClient s = Some llm
    \<and> llm taskDescription suggestedName = Inr (Some content)
    \<and> js_trim content \<noteq> []
    \<and> synthesize env (js_trim content) = Inr def"
  then have l: "llmClient s = Some llm"
    and r: "llm taskDescription suggestedName = Inr (Some content)"
    and n: "js_trim content \<noteq> []"
    and v: "synthesize env (js_trim content) = Inr def"
    by simp_all
  from addTool_outcome [of d env "def" False s]
  show "\<exists>e1 s1.
      (addTool d env def False s = Some (Inl e1, s1)
       \<or> addTool d env def False s = None \<and> e1 = call_stack_exceeded
         \<and> s1 = addTool_stands d env def False s)
      \<and> executeToolCreation (Suc d) env taskDescription suggestedName s =
          Some (Inr (Failed (''Failed to create tool: '' @ message e1)), s1)"
    unfolding executeToolCreation_with_client [OF l]
      tryCreate_synthesize [of llm taskDescription suggestedName content, OF r n] v
    by auto
qed

text \<open>
  An instance of each case: no client, a client whose completion holds no JSON, and a
  client whose completion passes the validation.
\<close>

theorem executeToolCreation_raises_only_without_client_witness:
  "llmClient (new_manager None) = None
   \<and> executeToolCreation 1 (example_env True) ''add two numbers'' None (new_manager None) =
       Some (Inl (Error ''LLMClient is required for tool creation execution.''),
             new_manager None)
   \<and> llmClient (new_manager (Some (reply ''I cannot do that.''))) \<noteq> None
   \<and> executeToolCreation 1 (example_env True) ''add two numbers'' None
        (new_manager (Some (reply ''I cannot do that.''))) =
       Some (Inr (Failed (''Failed to create tool: ''
                          @ message (format_error ''I cannot do that.''))),
             new_manager (Some (reply ''I cannot do that.'')))
   \<and> synthesize (example_env True) (js_trim (fenced weather_json)) = Inr weather_tool
   \<and> executeToolCreation 3 (example_env True) ''weather for a city'' None
        (new_manager (Some (reply (fenced weather_json)))) =
       Some (Inr (Failed ''Failed to create tool: Maximum call stack size exceeded''),
             \<lparr>collection = Some (), llmClient = Some (reply (fenced weather_json)),
                catalog = [], faults = [], uuid_calls = 1\<rparr>)"
proof -
  let ?s = "new_manager (Some (reply ''I cannot do that.''))"
  let ?w = "new_manager (Some (reply (fenced weather_json)))"
  have a: "llmClient (new_manager None) = None"
    by (simp add: new_manager_def)
  have b: "llmClient ?s = Some (reply ''I cannot do that.'')"
    by (simp add: new_manager_def)
  have t: "tryCreate 0 (example_env True) (reply ''I cannot do that.'')
      ''add two numbers'' None ?s = (Inl (format_error ''I cannot do that.''), ?s)"
    by (simp add: tryCreate_def reply_def trim_plain synthesize_plain)
  have c: "llmClient ?w = Some (reply (fenced weather_json))"
    by (simp add: new_manager_def)
  have r: "reply (fenced weather_json) ''weather for a city'' None =
      Inr (Some (fenced weather_json))"
    by (simp add: reply_def)
  have n: "js_trim (fenced weather_json) \<noteq> []"
    unfolding trim_fenced_weather by (simp add: fenced_def fence_open_def)
  have v: "synthesize (example_env True) (js_trim (fenced weather_json)) = Inr weather_tool"
    by (simp add: trim_fenced_weather synthesize_weather)
  from executeToolCreation_raises_only_without_client
    [of "new_manager None" 0 "example_env True" "''add two numbers''" None]
  have x: "executeToolCreation 1 (example_env True) ''add two numbers'' None
      (new_manager None) =
      Some (Inl (Error ''LLMClient is required for tool creation execution.''),
            new_manager None)"
    using a by simp
  from executeToolCreation_raises_only_without_client
    [of ?s 0 "example_env True" "''add two numbers''" None
      "reply ''I cannot do that.''" "format_error ''I cannot do that.''" ?s]
  have y: "executeToolCreation 1 (example_env True) ''add two numbers'' None ?s =
      Some (Inr (Failed (''Failed to create tool: ''
                         @ message (format_error ''I cannot do that.''))), ?s)"
    using b t by simp
  from executeToolCreation_raises_only_without_client
    [of ?w 2 "example_env True" "''weather for a city''" None
      "reply (fenced weather_json)" _ _ "fenced weather_json" weather_tool]
  have "\<exists>e1 s1.
      (addTool 2 (example_env True) weather_tool False ?w = Some (Inl e1, s1)
       \<or> addTool 2 (example_env True) weather_tool False ?w = None
         \<and> e1 = call_stack_exceeded
         \<and> s1 = addTool_stands 2 (example_env True) weather_tool False ?w)
      \<and> executeToolCreation 3 (example_env True) ''weather for a city'' None ?w =
          Some (Inr (Failed (''Failed to create tool: '' @ message e1)), s1)"
    using c r n v by (simp add: numeral_3_eq_3)
  then have z: "executeToolCreation 3 (example_env True) ''weather for a city'' None ?w =
      Some (Inr (Failed ''Failed to create tool: Maximum call stack size exceeded''),
            \<lparr>collection = Some (), llmClient = Some (reply (fenced weather_json)),
               catalog = [], faults = [], uuid_calls = 1\<rparr>)"
    using addTool_weather [of 0 "Some (reply (fenced weather_json))"]
      addTool_stands_weather [of 0 "Some (reply (fenced weather_json))"]
    by (auto simp: numeral_2_eq_2 call_stack_exceeded_def)
  from a b x y v z show ?thesis by simp
qed

text \<open>
  The claim as stated (no raise even without a client) fails on a manager constructed
  without a client.
\<close>

theorem executeToolCreation_no_client_counterexample:
  "executeToolCreation 1 (example_env True) ''add two numbers'' None (new_manager None) =
     Some (Inl (Error ''LLMClient is required for tool creation execution.''),
           new_manager None)"
  by (simp add: new_manager_def)

text \<open>
  Claim C4, as amended: with no embedder configured and no handle cached (the state the
  constructor leaves), \<open>getAvailableTools\<close> is blocked: \<open>_getOrCreateCollection\<close> throws
  the configuration error before the relevance step, the state is untouched and no list,
  not even the core tool alone, is returned.
\<close>

theorem getAvailableTools_without_embedder:
  assumes "\<not> embedder env" and "collection s = None"
  shows "getAvailableTools (Suc (Suc d)) env context maxResults s =
           Some (Inl (Error (''Cannot create collection without an embedding function. ''
                             @ ''Ensure OPENAI_API_KEY is set.'')), s)"
proof -
  have "connect env s =
      (Inl (Error (''Cannot create collection without an embedding function. ''
                   @ ''Ensure OPENAI_API_KEY is set.'')), s)"
    using assms by (simp add: connect_def)
  then show ?thesis
    unfolding getAvailableTools.simps getOrCreateCollection_Suc by simp
qed

theorem getAvailableTools_without_embedder_witness:
  "\<not> embedder (example_env False) \<and> collection (new_manager None) = None
   \<and> getAvailableTools 3 (example_env False) [] 0 (new_manager None) =
       Some (Inl (Error (''Cannot create collection without an embedding function. ''
                         @ ''Ensure OPENAI_API_KEY is set.'')), new_manager None)"
proof -
  have e: "\<not> embedder (example_env False)" by (simp add: example_env_def)
  have c: "collection (new_manager None) = None" by (simp add: new_manager_def)
  from getAvailableTools_without_embedder [OF e c, of 1 "[]" 0] e c
  show ?thesis by (simp add: numeral_3_eq_3)
qed

text \<open>
  The claim as stated (the call completes with the core tool alone) fails on a fresh
  manager without an embedder.
\<close>

theorem getAvailableTools_without_embedder_counterexample:
  "getAvailableTools 2 (example_env False) ''weather in Paris'' 5 (new_manager None) =
     Some (Inl (Error (''Cannot create collection without an embedding function. ''
                       @ ''Ensure OPENAI_API_KEY is set.'')), new_manager None)"
  by (simp add: numeral_2_eq_2 connect_def example_env_def new_manager_def)

text \<open>
  Claim C6: when the extraction, the parsing or the validation of the completion fails,
  \<open>executeToolCreation\<close> returns a result with a non-empty error message and leaves the
  state as it was: no call reaches the store, the catalog is unchanged.
\<close>

theorem executeToolCreation_synthesis_failure_atomic:
  assumes "llmClient s = Some llm"
    and "llm taskDescription suggestedName = Inr (Some content)"
    and "js_trim content \<noteq> []"
    and "synthesize env (js_trim content) = Inl e"
  shows "executeToolCreation (Suc d) env taskDescription suggestedName s =
           Some (Inr (Failed (''Failed to create tool: '' @ message e)), s)
         \<and> ''Failed to create tool: '' @ message e \<noteq> []"
  unfolding executeToolCreation_with_client [OF assms(1)]
    tryCreate_synthesize [of llm taskDescription suggestedName content, OF assms(2,3)] assms(4)
  by simp

text \<open>
  The two examples of the specification: a completion without a fenced block, and one
  whose \<open>parameters\<close> lack \<open>properties\<close>.
\<close>

theorem executeToolCreation_synthesis_failure_atomic_witness:
  "synthesize (example_env True) (js_trim ''I cannot do that.'') =
     Inl (format_error ''I cannot do that.'')
   \<and> executeToolCreation 1 (example_env True) ''add two numbers'' None
        (new_manager (Some (reply ''I cannot do that.''))) =
       Some (Inr (Failed (''Failed to create tool: ''
                          @ message (format_error ''I cannot do that.''))),
             new_manager (Some (reply ''I cannot do that.'')))
   \<and> synthesize (example_env True) (js_trim (fenced bare_json)) =
       Inl (invalid_schema (example_env True) (Obj bare_tool))
   \<and> executeToolCreation 1 (example_env True) ''add two numbers'' None
        (new_manager (Some (reply (fenced bare_json)))) =
       Some (Inr (Failed (''Failed to create tool: ''
                          @ message (invalid_schema (example_env True) (Obj bare_tool)))),
             new_manager (Some (reply (fenced bare_json))))"
proof -
  let ?s1 = "new_manager (Some (reply ''I cannot do that.''))"
  let ?s2 = "new_manager (Some (reply (fenced bare_json)))"
  have c1: "llmClient ?s1 = Some (reply ''I cannot do that.'')"
    by (simp add: new_manager_def)
  have r1: "reply ''I cannot do that.'' ''add two numbers'' None =
      Inr (Some ''I cannot do that.'')"
    by (simp add: reply_def)
  have n1: "js_trim ''I cannot do that.'' \<noteq> []"
    unfolding trim_plain by simp
  have v1: "synthesize (example_env True) (js_trim ''I cannot do that.'') =
      Inl (format_error ''I cannot do that.'')"
    unfolding trim_plain by (rule synthesize_plain)
  have c2: "llmClient ?s2 = Some (reply (fenced bare_json))"
    by (simp add: new_manager_def)
  have r2: "reply (fenced bare_json) ''add two numbers'' None =
      Inr (Some (fenced bare_json))"
    by (simp add: reply_def)
  have n2: "js_trim (fenced bare_json) \<noteq> []"
    unfolding trim_fenced_bare by (simp add: fenced_def fence_open_def)
  have v2: "synthesize (example_env True) (js_trim (fenced bare_json)) =
      Inl (invalid_schema (example_env True) (Obj bare_tool))"
    unfolding trim_fenced_bare by (rule synthesize_bare)
  from executeToolCreation_synthesis_failure_atomic [OF c1 r1 n1 v1, of 0]
    executeToolCreation_synthesis_failure_atomic [OF c2 r2 n2 v2, of 0]
  show ?thesis using v1 v2 by simp
qed

text \<open>
  Claim C8, as amended: if the response contains no fenced block, it is accepted as it is
  if and only if it starts with an opening and ends with a closing brace, and the format
  error is thrown otherwise; if it contains a fenced block, it has a first one, whose
  contents are taken when they are not empty; a first block with empty contents is
  treated like no block.
\<close>

theorem extractJson_cases:
  "(\<not> contains_fenced_block rawResponse \<longrightarrow>
      extractJson rawResponse =
        (if startsWith rawResponse ''{'' \<and> endsWith rawResponse ''}''
         then Inr rawResponse else Inl (format_error rawResponse)))
   \<and> (contains_fenced_block rawResponse \<longrightarrow> (\<exists>g. first_fenced_block rawResponse g))
   \<and> (first_fenced_block rawResponse g \<longrightarrow>
        extractJson rawResponse =
          (if g \<noteq> [] then Inr g
           else if startsWith rawResponse ''{'' \<and> endsWith rawResponse ''}''
           then Inr rawResponse else Inl (format_error rawResponse)))"
proof (cases "fence_match rawResponse")
  case None
  then have n: "\<not> contains_fenced_block rawResponse" by (rule fence_match_None)
  then have "\<not> first_fenced_block rawResponse g"
    using first_fenced_block_contains by blast
  with n None show ?thesis by (simp add: extractJson_def)
next
  case (Some g0)
  then have f: "first_fenced_block rawResponse g0" by (rule fence_match_first)
  then have c: "contains_fenced_block rawResponse" by (rule first_fenced_block_contains)
  have x: "extractJson rawResponse =
      (if g0 \<noteq> [] then Inr g0
       else if startsWith rawResponse ''{'' \<and> endsWith rawResponse ''}''
       then Inr rawResponse else Inl (format_error rawResponse))"
    using Some by (simp add: extractJson_def)
  have "first_fenced_block rawResponse g \<longrightarrow> g = g0"
    using f first_fenced_block_unique by blast
  with x c f show ?thesis by blast
qed

theorem extractJson_cases_witness:
  "\<not> contains_fenced_block ''{}'' \<and> extractJson ''{}'' = Inr ''{}''
   \<and> contains_fenced_block (fenced ''{}'')
   \<and> first_fenced_block (fenced ''{}'') ''{}''
   \<and> extractJson (fenced ''{}'') = Inr ''{}''"
proof -
  have "fence_match ''{}'' = None"
    by (simp add: startsWith_def fence_open_def)
  then have a: "\<not> contains_fenced_block ''{}''" by (rule fence_match_None)
  have "fence_match (fenced ''{}'') = Some ''{}''"
    by (simp add: fenced_def startsWith_def fence_open_def fence_def after_open_def
        js_space_def)
  then have f: "first_fenced_block (fenced ''{}'') ''{}''" by (rule fence_match_first)
  then have b: "contains_fenced_block (fenced ''{}'')"
    by (rule first_fenced_block_contains)
  from extractJson_cases [of "''{}''"] a
  have "extractJson ''{}'' = Inr ''{}''"
    by (simp add: startsWith_def endsWith_def)
  moreover from extractJson_cases [of "fenced ''{}''" "''{}''"] f
  have "extractJson (fenced ''{}'') = Inr ''{}''"
    by simp
  ultimately show ?thesis using a b f by blast
qed

text \<open>
  The claim as stated (the contents of a fenced block are taken) fails on a response that
  is an empty fenced block: the format error is thrown.
\<close>

theorem extractJson_empty_block_counterexample:
  "first_fenced_block ''```json```'' [] \<and>
   extractJson ''```json```'' = Inl (format_error ''```json```'')"
proof -
  have "fence_match ''```json```'' = Some []"
    by (simp add: startsWith_def fence_open_def fence_def after_open_def js_space_def)
  then show ?thesis
    by (simp add: fence_match_first extractJson_def startsWith_def endsWith_def)
qed

text \<open>
  Claim C9: for a completion whose parsed definition passes the validation,
  \<open>executeToolCreation\<close> stores the definition through \<open>addTool\<close> and returns it with
  the type \<open>llm_generated\<close> and a fresh identifier, and \<open>getTool\<close> finds it afterwards.
  \<open>addTool\<close> never returns a definition, so at no depth of calls, in no state and for no
  completion does \<open>executeToolCreation\<close> return a created tool. On the example of the
  specification, with an embedder and a store that answers, the call returns the error
  result of the exceeded call stack and the catalog stays empty.
\<close>

theorem executeToolCreation_never_creates:
  "executeToolCreation d env taskDescription suggestedName s \<noteq> Some (Inr (Created addedTool), s')
   \<and> executeToolCreation (Suc (Suc (Suc d))) (example_env True) ''weather for a city'' None
        (new_manager (Some (reply (fenced weather_json)))) =
      Some (Inr (Failed ''Failed to create tool: Maximum call stack size exceeded''),
            \<lparr>collection = Some (), llmClient = Some (reply (fenced weather_json)),
               catalog = [], faults = [], uuid_calls = 1\<rparr>)"
proof
  show "executeToolCreation d env taskDescription suggestedName s \<noteq>
      Some (Inr (Created addedTool), s')"
  proof (cases d)
    case 0
    then show ?thesis by simp
  next
    case (Suc d')
    show ?thesis
    proof (cases "llmClient s")
      case None
      with Suc show ?thesis by simp
    next
      case (Some llm)
      from tryCreate_throws [of d' env llm taskDescription suggestedName s]
      show ?thesis
        unfolding Suc executeToolCreation_with_client [OF Some] by auto
    qed
  qed
  show "executeToolCreation (Suc (Suc (Suc d))) (example_env True) ''weather for a city'' None
      (new_manager (Some (reply (fenced weather_json)))) =
    Some (Inr (Failed ''Failed to create tool: Maximum call stack size exceeded''),
          \<lparr>collection = Some (), llmClient = Some (reply (fenced weather_json)),
             catalog = [], faults = [], uuid_calls = 1\<rparr>)"
    by (rule executeToolCreation_weather)
qed

end
